theory Spec2Isabelle
  imports Complex_Main
begin

section \<open>Paths and tile keys\<close>

text \<open>
  A cache artifact lives at \<^verbatim>\<open>os.path.join(cache_dir, f"{row}_{col}_{map_type}_{z}.dds")\<close>
  with \<^verbatim>\<open>cache_dir = ".cache"\<close>. Paths are strings; \<open>str_int\<close> is Python's
  \<^verbatim>\<open>str\<close> on an int (decimal, a leading minus sign for negatives).
\<close>

type_synonym path = string

definition digit_char :: "nat \<Rightarrow> char" where
  "digit_char n = ''0123456789'' ! n"

fun str_nat :: "nat \<Rightarrow> string" where
  "str_nat n = (if n < 10 then [digit_char n] else str_nat (n div 10) @ [digit_char (n mod 10)])"

declare str_nat.simps [simp del]

definition str_int :: "int \<Rightarrow> string" where
  "str_int i = (if i < 0 then CHR ''-'' # str_nat (nat (- i)) else str_nat (nat i))"

text \<open>POSIX \<^verbatim>\<open>os.path.join\<close> of two components: an absolute second component wins.\<close>

definition os_path_join :: "path \<Rightarrow> path \<Rightarrow> path" where
  "os_path_join a b =
     (if b \<noteq> [] \<and> hd b = CHR ''/'' then b
      else if a = [] \<or> last a = CHR ''/'' then a @ b
      else a @ ''/'' @ b)"

definition cache_dir :: path where
  "cache_dir = ''.cache''"

definition cache_path :: "int \<Rightarrow> int \<Rightarrow> string \<Rightarrow> int \<Rightarrow> path" where
  "cache_path row col map_type z =
     os_path_join cache_dir
       (str_int row @ ''_'' @ str_int col @ ''_'' @ map_type @ ''_'' @ str_int z @ ''.dds'')"

section \<open>The external renderer and the cache state\<close>

text \<open>
  The renderer (\<^verbatim>\<open>getortho.GetOrtho\<close>) is an external collaborator. The cache sees it
  through three calls and through the set \<^verbatim>\<open>active_tiles\<close>. Each invocation made by the
  cache is recorded, with its arguments, in the field \<open>calls\<close>; each timed wait on the
  tile condition is recorded in \<open>waits\<close> as the pair of the time elapsed since
  \<^verbatim>\<open>start_time\<close> when the wait began and the timeout that was passed.
  \<open>BackgroundTile\<close> carries \<open>None\<close> for a keyword argument the caller leaves out.
\<close>

datatype rcall =
    QuickTile int int int int string path int
  | Tile int int int string path
  | BackgroundTile int int int "int option" string path "int option"

text \<open>
  What a renderer call does is not decided by the cache: it either raises or returns after
  some wall-clock time, and meanwhile the files on disk and the active set may have changed.
  The renderer is therefore a parameter: a function from the call and the current
  (files, active set) to an outcome.
\<close>

datatype rres =
    Raised "path set" "path set"
  | Returned real "path set" "path set"

type_synonym renderer = "rcall \<Rightarrow> path set \<Rightarrow> path set \<Rightarrow> rres"

datatype error = RuntimeError | RendererFailure | ValueError | OSError

record tc_state =
  files :: "path set"
  active_tiles :: "path set"
  tile_times :: "real list"
  target_zoom :: int
  calls :: "rcall list"
  waits :: "(real \<times> real) list"

text \<open>The class attributes of \<^verbatim>\<open>TileCacher\<close>: an empty window, Target Zoom 16.\<close>

definition tc_init :: "path set \<Rightarrow> path set \<Rightarrow> tc_state" where
  "tc_init fs act =
     \<lparr>files = fs, active_tiles = act, tile_times = [], target_zoom = 16, calls = [],
      waits = []\<rparr>"

text \<open>\<^verbatim>\<open>collections.deque(maxlen=5).append\<close>: the oldest entry leaves on the left.\<close>

definition deque_append :: "real list \<Rightarrow> real \<Rightarrow> real list" where
  "deque_append xs x = (let ys = xs @ [x] in drop (length ys - 5) ys)"

section \<open>\<^verbatim>\<open>TileCacher.get_quick\<close>\<close>

text \<open>
  The zoom walk \<^verbatim>\<open>for z in range(zoom, min_zoom-1, -1)\<close>: a level whose file is in the
  active set is skipped, the first other level whose file exists is the hit.
  The walk is evaluated on one snapshot of the disk and the active set.
\<close>

fun zoom_walk :: "(int \<Rightarrow> path) \<Rightarrow> path set \<Rightarrow> path set \<Rightarrow> int list \<Rightarrow> path option" where
  "zoom_walk cf fs act [] = None"
| "zoom_walk cf fs act (z # zs) =
     (if cf z \<in> act then zoom_walk cf fs act zs
      else if cf z \<in> fs then Some (cf z)
      else zoom_walk cf fs act zs)"

definition zoom_range :: "int \<Rightarrow> int \<Rightarrow> int list" where
  "zoom_range zoom min_zoom = rev [min_zoom..zoom]"

text \<open>
  The adaptive controller, run after each synchronous fetch:
  \<^verbatim>\<open>avg_time = sum(self.tile_times)/5\<close>, then the two guarded updates. Times are real
  numbers here; the rounding of Python's floats is not modelled.
\<close>

definition avg_time :: "real list \<Rightarrow> real" where
  "avg_time tt = sum_list tt / 5"

definition adapt_zoom :: "real \<Rightarrow> int \<Rightarrow> int" where
  "adapt_zoom avg tz =
     (if avg > 2 then (if tz \<ge> 12 then tz - 1 else tz)
      else if avg \<le> 3 / 10 then (if tz < 18 then tz + 1 else tz)
      else tz)"

definition resolve_min_zoom :: "int \<Rightarrow> int \<Rightarrow> int" where
  "resolve_min_zoom zoom min_zoom = (if min_zoom = 0 then zoom - 3 else min_zoom)"

text \<open>
  After a miss the code loops \<^verbatim>\<open>while cache_file in self.go.active_tiles\<close> and calls
  \<^verbatim>\<open>self.go.tile_condition.wait()\<close>. This happens after the \<^verbatim>\<open>with\<close> block of the walk
  has released the condition: a \<^verbatim>\<open>threading.Condition\<close> raises \<^verbatim>\<open>RuntimeError\<close>
  when a thread waits on it without holding its lock, so the first iteration raises.
  Otherwise \<^verbatim>\<open>get_quick_tile\<close> is called, with no exception handler around it; when it
  returns, the elapsed time enters the window and the controller runs.
\<close>

definition get_quick ::
  "renderer \<Rightarrow> int \<Rightarrow> int \<Rightarrow> string \<Rightarrow> int \<Rightarrow> int \<Rightarrow> int \<Rightarrow> tc_state \<Rightarrow> (error + path) \<times> tc_state" where
  "get_quick rend row col map_type zoom min_zoom0 priority s =
     (let min_zoom = resolve_min_zoom zoom min_zoom0 in
      case zoom_walk (cache_path row col map_type) (files s) (active_tiles s)
             (zoom_range zoom min_zoom) of
        Some cache_file \<Rightarrow> (Inr cache_file, s)
      | None \<Rightarrow>
          (let cache_file = cache_path row col map_type min_zoom in
           if cache_file \<in> active_tiles s then (Inl RuntimeError, s)
           else
             (let c = QuickTile col row zoom min_zoom map_type cache_file priority in
              case rend c (files s) (active_tiles s) of
                Raised fs act \<Rightarrow>
                  (Inl RendererFailure,
                   s\<lparr>files := fs, active_tiles := act, calls := calls s @ [c]\<rparr>)
              | Returned tile_time fs act \<Rightarrow>
                  (let tt = deque_append (tile_times s) tile_time in
                   (Inr cache_file,
                    s\<lparr>files := fs, active_tiles := act, calls := calls s @ [c],
                      tile_times := tt,
                      target_zoom := adapt_zoom (avg_time tt) (target_zoom s)\<rparr>)))))"

section \<open>\<^verbatim>\<open>get_target\<close>, \<^verbatim>\<open>get_background\<close>, \<^verbatim>\<open>get_best\<close>\<close>

definition get_target ::
  "renderer \<Rightarrow> int \<Rightarrow> int \<Rightarrow> string \<Rightarrow> int \<Rightarrow> tc_state \<Rightarrow> (error + path) \<times> tc_state" where
  "get_target rend row col map_type zoom s =
     (let min_zoom = min zoom (max (zoom - 2) (target_zoom s)) in
      get_quick rend row col map_type zoom min_zoom 1 s)"

text \<open>
  \<^verbatim>\<open>get_background\<close> looks only at the disk, never at the active set, and returns nothing.
  The call \<^verbatim>\<open>get_background_tile\<close> passes neither \<^verbatim>\<open>quick_zoom\<close> nor \<^verbatim>\<open>priority\<close>
  and has no exception handler around it.
\<close>

definition get_background ::
  "renderer \<Rightarrow> int \<Rightarrow> int \<Rightarrow> string \<Rightarrow> int \<Rightarrow> tc_state \<Rightarrow> (error + unit) \<times> tc_state" where
  "get_background rend row col map_type zoom s =
     (let cache_file = cache_path row col map_type zoom in
      if cache_file \<in> files s then (Inr (), s)
      else
        (let c = BackgroundTile col row zoom None map_type cache_file None in
         case rend c (files s) (active_tiles s) of
           Raised fs act \<Rightarrow>
             (Inl RendererFailure, s\<lparr>files := fs, active_tiles := act, calls := calls s @ [c]\<rparr>)
         | Returned t fs act \<Rightarrow>
             (Inr (), s\<lparr>files := fs, active_tiles := act, calls := calls s @ [c]\<rparr>)))"

text \<open>
  \<^verbatim>\<open>get_best\<close> is the one place with \<^verbatim>\<open>try: ... except Exception as err: log.error(err)\<close>:
  a failure of \<^verbatim>\<open>get_tile\<close> is logged and the expected path is returned all the same.
\<close>

definition get_best ::
  "renderer \<Rightarrow> int \<Rightarrow> int \<Rightarrow> string \<Rightarrow> int \<Rightarrow> tc_state \<Rightarrow> (error + path) \<times> tc_state" where
  "get_best rend row col map_type zoom s =
     (let cache_file = cache_path row col map_type zoom in
      if cache_file \<in> files s then (Inr cache_file, s)
      else if cache_file \<in> active_tiles s then
        get_quick rend row col map_type zoom (zoom - 2) 1 s
      else
        (let c = Tile col row zoom map_type cache_file in
         case rend c (files s) (active_tiles s) of
           Raised fs act \<Rightarrow>
             (Inr cache_file, s\<lparr>files := fs, active_tiles := act, calls := calls s @ [c]\<rparr>)
         | Returned t fs act \<Rightarrow>
             (Inr cache_file, s\<lparr>files := fs, active_tiles := act, calls := calls s @ [c]\<rparr>)))"

section \<open>\<^verbatim>\<open>TileCacher.get_deadline\<close>\<close>

text \<open>
  While the caller waits on the tile condition, other threads change the disk and the
  active set. One return of \<^verbatim>\<open>tile_condition.wait(deadline)\<close> is a \<open>wake\<close>: how long the
  wait lasted and what the disk and the active set are when it returns. The wakes that a
  call will meet are a parameter of the call. When the list is used up and the loop wants
  to wait again, the model has no answer: the result is \<open>None\<close>.

  The loop is
  \<^verbatim>\<open>while cache_file in active_tiles or not exists(cache_file):
      wait(deadline); if (time() - start_time) > deadline: deadline_reached = True; break\<close>
  and it returns the flag, the time elapsed and the state.
\<close>

record wake =
  w_dt :: real
  w_files :: "path set"
  w_active :: "path set"

fun deadline_loop ::
  "path \<Rightarrow> real \<Rightarrow> wake list \<Rightarrow> real \<Rightarrow> tc_state \<Rightarrow> (bool \<times> real \<times> tc_state) option" where
  "deadline_loop cache_file deadline [] elapsed s =
     (if cache_file \<in> active_tiles s \<or> cache_file \<notin> files s then None
      else Some (False, elapsed, s))"
| "deadline_loop cache_file deadline (w # ws) elapsed s =
     (if cache_file \<in> active_tiles s \<or> cache_file \<notin> files s then
        (let s' = s\<lparr>files := w_files w, active_tiles := w_active w,
                       waits := waits s @ [(elapsed, deadline)]\<rparr>;
             elapsed' = elapsed + w_dt w
         in if elapsed' > deadline then Some (True, elapsed', s')
            else deadline_loop cache_file deadline ws elapsed' s')
      else Some (False, elapsed, s))"

definition deadline_target :: "int \<Rightarrow> int \<Rightarrow> string \<Rightarrow> int \<Rightarrow> int \<Rightarrow> path" where
  "deadline_target row col map_type zoom quick_zoom =
     (if quick_zoom \<noteq> 0 then cache_path row col map_type quick_zoom
      else cache_path row col map_type zoom)"

definition get_deadline ::
  "renderer \<Rightarrow> wake list \<Rightarrow> int \<Rightarrow> int \<Rightarrow> string \<Rightarrow> int \<Rightarrow> int \<Rightarrow> int \<Rightarrow> real \<Rightarrow> int \<Rightarrow>
   tc_state \<Rightarrow> ((error + path) \<times> tc_state) option" where
  "get_deadline rend ws row col map_type zoom quick_zoom min_zoom deadline priority s =
     (let cache_file = deadline_target row col map_type zoom quick_zoom in
      if cache_file \<in> files s then Some (Inr cache_file, s)
      else
        (let c = BackgroundTile col row zoom (Some quick_zoom) map_type cache_file (Some priority) in
         case rend c (files s) (active_tiles s) of
           Raised fs act \<Rightarrow>
             Some (Inl RendererFailure,
                   s\<lparr>files := fs, active_tiles := act, calls := calls s @ [c]\<rparr>)
         | Returned t fs act \<Rightarrow>
             (case deadline_loop cache_file deadline ws 0
                     (s\<lparr>files := fs, active_tiles := act, calls := calls s @ [c]\<rparr>) of
                None \<Rightarrow> None
              | Some (deadline_reached, elapsed, s2) \<Rightarrow>
                  if cache_file \<in> files s2 \<and> \<not> deadline_reached then Some (Inr cache_file, s2)
                  else Some (get_quick rend row col map_type zoom
                               (if min_zoom = 0 then zoom - 3 else min_zoom) 1 s2))))"

section \<open>Sequences of cache operations\<close>

text \<open>
  A caller can reach the cache through its five entry points. \<open>exec_op\<close> gives the state
  after one call, whether the call returned or raised (an exception does not roll the
  state back); \<open>exec_ops\<close> runs a list of calls one after the other.
\<close>

datatype cache_op =
    GetQuick int int string int int int
  | GetTarget int int string int
  | GetBackground int int string int
  | GetBest int int string int
  | GetDeadline "wake list" int int string int int int real int

fun exec_op :: "renderer \<Rightarrow> cache_op \<Rightarrow> tc_state \<Rightarrow> tc_state option" where
  "exec_op rend (GetQuick row col mt zoom min_zoom priority) s =
     Some (snd (get_quick rend row col mt zoom min_zoom priority s))"
| "exec_op rend (GetTarget row col mt zoom) s = Some (snd (get_target rend row col mt zoom s))"
| "exec_op rend (GetBackground row col mt zoom) s =
     Some (snd (get_background rend row col mt zoom s))"
| "exec_op rend (GetBest row col mt zoom) s = Some (snd (get_best rend row col mt zoom s))"
| "exec_op rend (GetDeadline ws row col mt zoom quick_zoom min_zoom deadline priority) s =
     map_option snd (get_deadline rend ws row col mt zoom quick_zoom min_zoom deadline priority s)"

fun exec_ops :: "renderer \<Rightarrow> cache_op list \<Rightarrow> tc_state \<Rightarrow> tc_state option" where
  "exec_ops rend [] s = Some s"
| "exec_ops rend (x # xs) s =
     (case exec_op rend x s of None \<Rightarrow> None | Some s' \<Rightarrow> exec_ops rend xs s')"

text \<open>The number of \<^verbatim>\<open>get_quick_tile\<close> calls the cache has made so far.\<close>

fun is_quick_tile :: "rcall \<Rightarrow> bool" where
  "is_quick_tile (QuickTile col row zoom min_zoom mt out priority) = True"
| "is_quick_tile (Tile col row zoom mt out) = False"
| "is_quick_tile (BackgroundTile col row zoom quick_zoom mt out priority) = False"

definition quick_fetches :: "tc_state \<Rightarrow> nat" where
  "quick_fetches s = length (filter is_quick_tile (calls s))"

fun background_outfile :: "rcall \<Rightarrow> path option" where
  "background_outfile (BackgroundTile col row zoom quick_zoom mt out priority) = Some out"
| "background_outfile (QuickTile col row zoom min_zoom mt out priority) = None"
| "background_outfile (Tile col row zoom mt out) = None"

text \<open>How often background work for a given artifact has been handed to the renderer.\<close>

definition background_requests :: "path \<Rightarrow> tc_state \<Rightarrow> nat" where
  "background_requests out s = length (filter (\<lambda>c. background_outfile c = Some out) (calls s))"

text \<open>\<open>n\<close> calls of \<^verbatim>\<open>get_background\<close> for the same key, one after the other.\<close>

fun repeat_background ::
  "renderer \<Rightarrow> nat \<Rightarrow> int \<Rightarrow> int \<Rightarrow> string \<Rightarrow> int \<Rightarrow> tc_state \<Rightarrow> tc_state" where
  "repeat_background rend 0 row col mt zoom s = s"
| "repeat_background rend (Suc n) row col mt zoom s =
     repeat_background rend n row col mt zoom (snd (get_background rend row col mt zoom s))"

section \<open>The DSF prefetch\<close>

text \<open>
  \<^verbatim>\<open>DSF.open\<close> collects the referenced DDS paths in a set, turns the set into
  \<^verbatim>\<open>dds_list\<close> and cuts it:
  \<^verbatim>\<open>chunk_size = int(num_dds/8)\<close>,
  \<^verbatim>\<open>[dds_list[i:i+chunk_size] for i in range(len(dds_list))[::chunk_size]]\<close>.
  Slicing a range with step 0 raises \<^verbatim>\<open>ValueError\<close>; with a step \<open>k > 0\<close> the indices
  are \<open>0, k, 2k, ...\<close> below the length, so there are \<open>\<lceil>n / k\<rceil>\<close> of them.
\<close>

definition num_chunks :: nat where
  "num_chunks = 8"

definition range_step :: "nat \<Rightarrow> nat \<Rightarrow> error + nat list" where
  "range_step n k =
     (if k = 0 then Inl ValueError
      else Inr (map (\<lambda>j. j * k) [0 ..< (n + k - 1) div k]))"

definition chunked_list :: "'a list \<Rightarrow> error + 'a list list" where
  "chunked_list dds_list =
     (let chunk_size = length dds_list div num_chunks in
      case range_step (length dds_list) chunk_size of
        Inl e \<Rightarrow> Inl e
      | Inr starts \<Rightarrow> Inr (map (\<lambda>i. take chunk_size (drop i dds_list)) starts))"

text \<open>
  Python's \<^verbatim>\<open>int\<close> on a string of decimal digits, which is what the groups \<^verbatim>\<open>(\d+)\<close> of
  the tile pattern hold; anything else is answered with \<^verbatim>\<open>ValueError\<close>. The digits are
  the ASCII ones: signs, blanks, underscores and the other Unicode digits that Python's
  \<^verbatim>\<open>int\<close> reads as well are left out.
\<close>

definition is_digit :: "char \<Rightarrow> bool" where
  "is_digit c = (c \<in> set ''0123456789'')"

definition digit_val :: "char \<Rightarrow> int" where
  "digit_val c = int (of_char c) - 48"

definition py_int :: "string \<Rightarrow> error + int" where
  "py_int str =
     (if str \<noteq> [] \<and> list_all is_digit str
      then Inr (foldl (\<lambda>a c. 10 * a + digit_val c) 0 str)
      else Inl ValueError)"


type_synonym scenery = "path \<rightharpoonup> nat"

type_synonym tile_re = "path \<Rightarrow> (string \<times> string \<times> string \<times> string) option"




section \<open>The read path: \<^verbatim>\<open>AutoOrtho\<close>\<close>

text \<open>
  The flight state is written by the telemetry thread and read here. The tile arithmetic
  \<^verbatim>\<open>deg2num\<close> (trigonometry on floats) is a parameter; speeds, headings and deadlines are
  real numbers.
\<close>

record flight =
  connected :: bool
  lat :: real
  lon :: real
  alt :: real
  hdg :: real
  spd :: real

record ao_state =
  tc :: tc_state
  path_dict :: "path \<rightharpoonup> path"
  ff :: flight

definition full_path :: "path \<Rightarrow> path \<Rightarrow> path" where
  "full_path rootdir partial =
     os_path_join rootdir (if partial \<noteq> [] \<and> hd partial = CHR ''/'' then tl partial else partial)"

definition facing_tile :: "real \<Rightarrow> int \<Rightarrow> int \<Rightarrow> int \<Rightarrow> int \<Rightarrow> bool" where
  "facing_tile h row col x y =
     (if 315 \<le> h \<or> h < 45 then row \<le> y
      else if 135 \<le> h \<and> h < 225 then row \<ge> y
      else if 45 \<le> h \<and> h < 135 then col \<ge> x
      else if 225 \<le> h \<and> h < 315 then col \<le> x
      else False)"

definition near_range :: "int \<Rightarrow> int" where
  "near_range zoom = 2 ^ nat (max 12 zoom - 12) * 4"

text \<open>
  \<^verbatim>\<open>distance <= near_range\<close> with \<^verbatim>\<open>distance = math.sqrt(pow(x - col, 2) + pow(y - row, 2))\<close>,
  the square root taken exactly, not in floating point.
\<close>

definition within_near_range :: "int \<Rightarrow> int \<Rightarrow> int \<Rightarrow> int \<Rightarrow> int \<Rightarrow> bool" where
  "within_near_range x y row col zoom \<longleftrightarrow>
     sqrt (real_of_int ((x - col)\<^sup>2 + (y - row)\<^sup>2)) \<le> real_of_int (near_range zoom)"

definition fetch_dds ::
  "renderer \<Rightarrow> wake list \<Rightarrow> (real \<Rightarrow> real \<Rightarrow> int \<Rightarrow> int \<times> int) \<Rightarrow>
   int \<Rightarrow> int \<Rightarrow> string \<Rightarrow> int \<Rightarrow> flight \<Rightarrow> tc_state \<Rightarrow> ((error + path) \<times> tc_state) option" where
  "fetch_dds rend ws deg2num row col maptype zoom f s =
     (if \<not> connected f then Some (get_quick rend row col maptype zoom 0 1 s)
      else
        (case deg2num (lat f) (lon f) zoom of
           (x, y) \<Rightarrow>
             (let near = within_near_range x y row col zoom;
                  facing = facing_tile (hdg f) row col x y
              in
                if spd f > 400 \<and> near \<and> alt f < 4500 then
                  (if facing then
                     get_deadline rend ws row col maptype zoom (zoom - 2) 0 (35 / 100) 5 s
                   else Some (get_quick rend row col maptype zoom 0 1 s))
                else if spd f > 200 \<and> near \<and> alt f < 4500 then
                  (if facing then get_deadline rend ws row col maptype zoom (zoom - 1) 0 1 5 s
                   else Some (get_quick rend row col maptype zoom 0 1 s))
                else if spd f > 200 then
                  (if facing then
                     get_deadline rend ws row col maptype zoom (zoom - 2) 0 (35 / 100) 5 s
                   else Some (get_quick rend row col maptype zoom 0 1 s))
                else if near then
                  (if facing then get_deadline rend ws row col maptype zoom 0 0 4 2 s
                   else if spd f < 2 then get_deadline rend ws row col maptype zoom 0 0 8 5 s
                   else get_deadline rend ws row col maptype zoom 0 0 1 5 s)
                else
                  (if facing then get_deadline rend ws row col maptype zoom 0 0 (3 / 2) 5 s
                   else Some (get_quick rend row col maptype zoom 0 1 s)))))"

text \<open>
  \<^verbatim>\<open>os.lstat\<close> and \<^verbatim>\<open>os.open\<close> on the underlying file system: they fail on a path that
  does not exist. The result names the file that was looked at or opened.
\<close>

definition os_lstat :: "path set \<Rightarrow> path \<Rightarrow> error + path" where
  "os_lstat fs p = (if p \<in> fs then Inr p else Inl OSError)"

definition os_open :: "path set \<Rightarrow> path \<Rightarrow> error + path" where
  "os_open fs p = (if p \<in> fs then Inr p else Inl OSError)"

text \<open>The three \<^verbatim>\<open>int(...)\<close> conversions of the matched groups, in the order of the code.\<close>

definition int_groups :: "string \<Rightarrow> string \<Rightarrow> string \<Rightarrow> error + (int \<times> int \<times> int)" where
  "int_groups row col zoom =
     (case py_int row of
        Inl e \<Rightarrow> Inl e
      | Inr r \<Rightarrow>
          (case py_int col of
             Inl e \<Rightarrow> Inl e
           | Inr c \<Rightarrow> (case py_int zoom of Inl e \<Rightarrow> Inl e | Inr z \<Rightarrow> Inr (r, c, z))))"

text \<open>
  \<^verbatim>\<open>AutoOrtho.getattr\<close>: a tile path whose maptype is not \<^verbatim>\<open>"ZL"\<close> is resolved by the
  policy and the answer is remembered in \<^verbatim>\<open>path_dict\<close>; every other path is looked up
  under the root.
\<close>

definition ao_getattr ::
  "renderer \<Rightarrow> wake list \<Rightarrow> (real \<Rightarrow> real \<Rightarrow> int \<Rightarrow> int \<times> int) \<Rightarrow> tile_re \<Rightarrow> path \<Rightarrow>
   path \<Rightarrow> ao_state \<Rightarrow> ((error + path) \<times> ao_state) option" where
  "ao_getattr rend ws deg2num dds_re rootdir p a =
     (case dds_re p of
        None \<Rightarrow> Some (os_lstat (files (tc a)) (full_path rootdir p), a)
      | Some (row, col, maptype, zoom) \<Rightarrow>
          (case int_groups row col zoom of
             Inl e \<Rightarrow> Some (Inl e, a)
           | Inr (r, c, z) \<Rightarrow>
               if maptype \<noteq> ''ZL'' then
                 (case fetch_dds rend ws deg2num r c maptype z (ff a) (tc a) of
                    None \<Rightarrow> None
                  | Some (Inl e, t) \<Rightarrow> Some (Inl e, a\<lparr>tc := t\<rparr>)
                  | Some (Inr cache_file, t) \<Rightarrow>
                      (let a1 = a\<lparr>tc := t, path_dict := (path_dict a)(p \<mapsto> cache_file)\<rparr>;
                           target = (if cache_file = [] then full_path rootdir p else cache_file)
                       in Some (os_lstat (files t) target, a1)))
               else Some (os_lstat (files (tc a)) (full_path rootdir p), a)))"

text \<open>
  \<^verbatim>\<open>AutoOrtho.open\<close>. For a scenery descriptor the prefetch runs first; its eight threads
  work on the cache in parallel, so its effect on the cache state is a parameter
  (\<open>dsf_parse\<close>). For a tile path the remembered artifact is opened, and when nothing is
  remembered \<^verbatim>\<open>get_quick\<close> is asked. The block under \<^verbatim>\<open>if False:\<close> never runs.
\<close>

definition ao_open_dds ::
  "renderer \<Rightarrow> tile_re \<Rightarrow> path \<Rightarrow> ao_state \<Rightarrow> (error + path option) \<times> ao_state" where
  "ao_open_dds rend dds_re p a =
     (case dds_re p of
        None \<Rightarrow> (Inr None, a)
      | Some (row, col, maptype, zoom) \<Rightarrow>
          (case (case path_dict a p of None \<Rightarrow> None
                 | Some cf \<Rightarrow> if cf = [] then None else Some cf) of
             Some cache_file \<Rightarrow>
               (case os_open (files (tc a)) cache_file of
                  Inl e \<Rightarrow> (Inl e, a)
                | Inr h \<Rightarrow> (Inr (Some h), a))
           | None \<Rightarrow>
               (case int_groups row col zoom of
                  Inl e \<Rightarrow> (Inl e, a)
                | Inr (r, c, z) \<Rightarrow>
                    (case get_quick rend r c maptype z 0 1 (tc a) of
                       (Inl e, t) \<Rightarrow> (Inl e, a\<lparr>tc := t\<rparr>)
                     | (Inr cache_file, t) \<Rightarrow>
                         (let a1 = a\<lparr>tc := t, path_dict := (path_dict a)(p \<mapsto> cache_file)\<rparr>
                          in case os_open (files t) cache_file of
                               Inl e \<Rightarrow> (Inl e, a1)
                             | Inr h \<Rightarrow> (Inr (Some h), a1))))))"

definition ao_open ::
  "renderer \<Rightarrow> tile_re \<Rightarrow> (path \<Rightarrow> bool) \<Rightarrow> (path \<Rightarrow> bool \<Rightarrow> tc_state \<Rightarrow> error + tc_state) \<Rightarrow>
   path \<Rightarrow> path \<Rightarrow> ao_state \<Rightarrow> (error + path) \<times> ao_state" where
  "ao_open rend dds_re dsf_re dsf_parse rootdir p a =
     (let fp = full_path rootdir p;
          go_fast = (spd (ff a) > 400 \<and> alt (ff a) > 4500);
          r1 = (if dsf_re p then
                  (case dsf_parse fp go_fast (tc a) of
                     Inl e \<Rightarrow> (Inl e, a)
                   | Inr t \<Rightarrow>
                       (case os_open (files t) fp of
                          Inl e \<Rightarrow> (Inl e, a\<lparr>tc := t\<rparr>)
                        | Inr h \<Rightarrow> (Inr (Some h), a\<lparr>tc := t\<rparr>)))
                else (Inr None, a))
      in case r1 of
           (Inl e, a1) \<Rightarrow> (Inl e, a1)
         | (Inr h1, a1) \<Rightarrow>
             (case ao_open_dds rend dds_re p a1 of
                (Inl e, a2) \<Rightarrow> (Inl e, a2)
              | (Inr h2, a2) \<Rightarrow>
                  (case (case h2 of Some h \<Rightarrow> Some h | None \<Rightarrow> h1) of
                     Some h \<Rightarrow> (Inr h, a2)
                   | None \<Rightarrow>
                       (case os_open (files (tc a2)) fp of
                          Inl e \<Rightarrow> (Inl e, a2)
                        | Inr h \<Rightarrow> (Inr h, a2)))))"

section \<open>Sample environments\<close>

text \<open>
  Three renderers to run the cache against: one whose every call raises, one that
  returns at once without having produced anything, and one that needs 11 seconds for a
  synchronous tile, writes it, and for a background request only marks the tile active.
\<close>

definition failing_renderer :: renderer where
  "failing_renderer c fs act = Raised fs act"

definition idle_renderer :: renderer where
  "idle_renderer c fs act = Returned 0 fs act"

fun slow_renderer :: renderer where
  "slow_renderer (QuickTile col row zoom min_zoom mt out priority) fs act =
     Returned 11 (insert out fs) act"
| "slow_renderer (Tile col row zoom mt out) fs act = Returned 11 (insert out fs) act"
| "slow_renderer (BackgroundTile col row zoom quick_zoom mt out priority) fs act =
     Returned 0 fs (insert out act)"

text \<open>
  A tile pattern that knows one path, \<^verbatim>\<open>/textures/10_20_ZL16.dds\<close>, with the groups that
  \<^verbatim>\<open>.*/(\d+)[-_](\d+)[-_](\D*)(\d+).dds\<close> gives for it, and the adapter before any packet
  has arrived (the class attributes of \<^verbatim>\<open>FlightFollower\<close>).
\<close>

definition sample_tile_re :: tile_re where
  "sample_tile_re p =
     (if p = ''/textures/10_20_ZL16.dds'' then Some (''10'', ''20'', ''ZL'', ''16'') else None)"

definition ao_init :: "path set \<Rightarrow> ao_state" where
  "ao_init fs =
     \<lparr>tc = tc_init fs {}, path_dict = Map.empty,
      ff = \<lparr>connected = False, lat = - 1, lon = - 1, alt = - 1, hdg = - 1, spd = - 1\<rparr>\<rparr>"

text \<open>The files on disk after a renderer call.\<close>

fun rres_files :: "rres \<Rightarrow> path set" where
  "rres_files (Raised fs act) = fs"
| "rres_files (Returned t fs act) = fs"

section \<open>What a prefetch worker requests\<close>




text \<open>
  A scenery with numbered textures \<^verbatim>\<open>/t/10_0_BI16.dds\<close>, \<^verbatim>\<open>/t/10_1_BI16.dds\<close>, ..., the
  groups the tile pattern gives for the first \<open>n\<close> of them, and a \<^verbatim>\<open>get_quick\<close> that
  answers every call with the path three levels down.
\<close>

definition numbered_dds :: "nat \<Rightarrow> path" where
  "numbered_dds c = ''/t/10_'' @ str_nat c @ ''_BI16.dds''"



section \<open>Evaluating the distance test\<close>

lemma near_range_nonneg: "0 \<le> near_range zoom"
  by (simp add: near_range_def)

lemma within_near_range_code [code]:
  "within_near_range x y row col zoom \<longleftrightarrow>
     (x - col)\<^sup>2 + (y - row)\<^sup>2 \<le> (near_range zoom)\<^sup>2"
proof -
  have "sqrt (real_of_int ((x - col)\<^sup>2 + (y - row)\<^sup>2)) \<le> real_of_int (near_range zoom)
        \<longleftrightarrow> real_of_int ((x - col)\<^sup>2 + (y - row)\<^sup>2) \<le> (real_of_int (near_range zoom))\<^sup>2"
    using near_range_nonneg [of zoom]
    by (metis of_int_0_le_iff real_sqrt_le_iff real_sqrt_abs abs_of_nonneg)
  also have "\<dots> \<longleftrightarrow> (x - col)\<^sup>2 + (y - row)\<^sup>2 \<le> (near_range zoom)\<^sup>2"
    by (metis of_int_le_iff of_int_power)
  finally show ?thesis by (simp add: within_near_range_def)
qed

section \<open>Properties of \<^verbatim>\<open>get_quick\<close>\<close>

text \<open>
  Claim C10. Whenever \<^verbatim>\<open>get_quick\<close> returns through a hit of its zoom walk, it returns
  the hit's path, makes no renderer call and leaves the Tile Time Window and Target Zoom
  (indeed the whole state) as they were.
\<close>

theorem get_quick_hit_frame:
  assumes "zoom_walk (cache_path row col map_type) (files s) (active_tiles s)
             (zoom_range zoom (resolve_min_zoom zoom min_zoom)) = Some p"
  shows "fst (get_quick rend row col map_type zoom min_zoom priority s) = Inr p
       \<and> calls (snd (get_quick rend row col map_type zoom min_zoom priority s)) = calls s
       \<and> tile_times (snd (get_quick rend row col map_type zoom min_zoom priority s)) = tile_times s
       \<and> target_zoom (snd (get_quick rend row col map_type zoom min_zoom priority s)) = target_zoom s
       \<and> snd (get_quick rend row col map_type zoom min_zoom priority s) = s"
  using assms by (simp add: get_quick_def)

theorem get_quick_hit_frame_witness:
  "fst (get_quick (\<lambda>c fs act. Raised fs act) 1 2 ''BI'' 16 0 1
          (tc_init {''.cache/1_2_BI_14.dds''} {})) = Inr ''.cache/1_2_BI_14.dds''
   \<and> snd (get_quick (\<lambda>c fs act. Raised fs act) 1 2 ''BI'' 16 0 1
          (tc_init {''.cache/1_2_BI_14.dds''} {})) = tc_init {''.cache/1_2_BI_14.dds''} {}"
proof -
  have h: "zoom_walk (cache_path 1 2 ''BI'') (files (tc_init {''.cache/1_2_BI_14.dds''} {}))
             (active_tiles (tc_init {''.cache/1_2_BI_14.dds''} {}))
             (zoom_range 16 (resolve_min_zoom 16 0)) = Some ''.cache/1_2_BI_14.dds''"
    by code_simp
  from get_quick_hit_frame [OF h] show ?thesis by simp
qed

section \<open>Exceptions\<close>

text \<open>
  Claim C1 says that every retrieval operation returns normally for every input and every
  state of the cache and of the active set, renderer failures being logged and swallowed.
  Only \<^verbatim>\<open>get_best\<close> has an exception handler, around \<^verbatim>\<open>get_tile\<close>. The theorem runs
  the code on an empty cache: a failure of \<^verbatim>\<open>get_quick_tile\<close> leaves \<^verbatim>\<open>get_quick\<close> as an
  exception; so does the wait on the tile condition when the \<^verbatim>\<open>min_zoom\<close> tile is active;
  and a failure of \<^verbatim>\<open>get_background_tile\<close> leaves \<^verbatim>\<open>get_background\<close> and
  \<^verbatim>\<open>get_deadline\<close> as an exception.
\<close>

theorem cache_operations_raise:
  "fst (get_quick failing_renderer 1 2 ''BI'' 16 0 1 (tc_init {} {})) = Inl RendererFailure
   \<and> fst (get_quick idle_renderer 1 2 ''BI'' 16 0 1 (tc_init {} {''.cache/1_2_BI_13.dds''}))
       = Inl RuntimeError
   \<and> fst (get_background failing_renderer 1 2 ''BI'' 16 (tc_init {} {})) = Inl RendererFailure
   \<and> map_option fst (get_deadline failing_renderer [] 1 2 ''BI'' 16 0 0 (1 / 4) 5 (tc_init {} {}))
       = Some (Inl RendererFailure)"
  by code_simp

text \<open>
  What does hold: \<^verbatim>\<open>get_best\<close> on a tile that is not active returns the expected path
  whatever the renderer does.
\<close>

lemma get_best_swallows:
  assumes "cache_path row col mt zoom \<notin> active_tiles s"
  shows "fst (get_best rend row col mt zoom s) = Inr (cache_path row col mt zoom)"
  using assms by (simp add: get_best_def Let_def split: rres.split)

section \<open>The adaptive controller\<close>

lemma adapt_zoom_decrements: "adapt_zoom avg tz = tz - 1 \<longleftrightarrow> avg > 2 \<and> tz \<ge> 12"
  by (auto simp: adapt_zoom_def)

lemma adapt_zoom_increments: "adapt_zoom avg tz = tz + 1 \<longleftrightarrow> avg \<le> 3 / 10 \<and> tz < 18"
  by (auto simp: adapt_zoom_def)

lemma adapt_zoom_range:
  "11 \<le> tz \<Longrightarrow> tz \<le> 18 \<Longrightarrow> 11 \<le> adapt_zoom avg tz \<and> adapt_zoom avg tz \<le> 18"
  by (auto simp: adapt_zoom_def)

text \<open>
  Claim C2 says that Target Zoom starts at 16 and stays in the interval from 12 to 18 under
  every sequence of cache operations. The guard before the decrement is
  \<^verbatim>\<open>self.target_zoom >= 12\<close>, so the value 12 is decremented once more: five slow fetches in
  a row, from the initial state, leave Target Zoom at 11.
\<close>

theorem target_zoom_leaves_range:
  "map_option target_zoom
     (exec_ops slow_renderer
        [GetQuick 1 1 ''BI'' 16 0 1, GetQuick 1 2 ''BI'' 16 0 1, GetQuick 1 3 ''BI'' 16 0 1,
         GetQuick 1 4 ''BI'' 16 0 1, GetQuick 1 5 ''BI'' 16 0 1]
        (tc_init {} {})) = Some 11"
  by code_simp

text \<open>
  Claim C3 says that after a fetch the controller decrements Target Zoom exactly when the
  moving average exceeds 2 s and Target Zoom is at least 13. The code decrements at 12 as
  well: with an average of 3 s the controller takes 12 to 11, and so does a \<^verbatim>\<open>get_quick\<close>
  miss that takes 11 s when Target Zoom is 12.
\<close>

theorem controller_decrements_at_12:
  "adapt_zoom 3 12 = 11
   \<and> target_zoom (snd (get_quick slow_renderer 1 2 ''BI'' 16 0 1
                         ((tc_init {} {})\<lparr>target_zoom := 12\<rparr>))) = 11"
  by code_simp

section \<open>The \<^verbatim>\<open>ZL\<close> sentinel\<close>

text \<open>
  In \<^verbatim>\<open>getattr\<close> a tile path whose maptype is \<^verbatim>\<open>"ZL"\<close> goes to the underlying file and
  nothing else happens.
\<close>

lemma getattr_zl_passthrough:
  assumes "dds_re p = Some (row, col, ''ZL'', zoom)"
    and "int_groups row col zoom = Inr (r, c, z)"
  shows "ao_getattr rend ws deg2num dds_re rootdir p a
           = Some (os_lstat (files (tc a)) (full_path rootdir p), a)"
  using assms by (simp add: ao_getattr_def)

text \<open>
  Claim C8 says that for a tile path whose maptype is \<^verbatim>\<open>"ZL"\<close> neither \<^verbatim>\<open>getattr\<close> nor
  \<^verbatim>\<open>open\<close> triggers a fetch or a cache resolution. \<^verbatim>\<open>open\<close> has no test for \<^verbatim>\<open>"ZL"\<close>:
  \<^verbatim>\<open>getattr\<close> has left \<^verbatim>\<open>path_dict\<close> without an entry for the path, so \<^verbatim>\<open>open\<close> calls
  \<^verbatim>\<open>get_quick\<close>. On an empty cache the renderer is asked for the tile at zoom 13 and the
  handle returned is that of the cache artifact, not of the file under the root, which is
  the one \<^verbatim>\<open>getattr\<close> looks at.
\<close>

theorem open_resolves_zl_tile:
  "fst (ao_open slow_renderer sample_tile_re (\<lambda>p. False) (\<lambda>p fast t. Inr t) ''/scenery''
          ''/textures/10_20_ZL16.dds'' (ao_init {''/scenery/textures/10_20_ZL16.dds''}))
     = Inr ''.cache/10_20_ZL_13.dds''
   \<and> calls (tc (snd (ao_open slow_renderer sample_tile_re (\<lambda>p. False) (\<lambda>p fast t. Inr t)
          ''/scenery'' ''/textures/10_20_ZL16.dds''
          (ao_init {''/scenery/textures/10_20_ZL16.dds''}))))
     = [QuickTile 20 10 16 13 ''ZL'' ''.cache/10_20_ZL_13.dds'' 1]
   \<and> map_option fst (ao_getattr slow_renderer [] (\<lambda>la lo z. (0, 0)) sample_tile_re ''/scenery''
          ''/textures/10_20_ZL16.dds'' (ao_init {''/scenery/textures/10_20_ZL16.dds''}))
     = Some (Inr ''/scenery/textures/10_20_ZL16.dds'')"
  by code_simp

section \<open>The zoom walk\<close>

lemma zoom_walk_none_iff:
  "zoom_walk cf fs act zs = None \<longleftrightarrow> (\<forall>z\<in>set zs. cf z \<in> act \<or> cf z \<notin> fs)"
  by (induction zs) auto

lemma zoom_walk_skip:
  assumes "\<forall>z\<in>set pre. cf z \<in> act \<or> cf z \<notin> fs"
  shows "zoom_walk cf fs act (pre @ rest) = zoom_walk cf fs act rest"
  using assms by (induction pre) auto

lemma zoom_range_split:
  assumes "m \<le> z" "z \<le> n"
  shows "zoom_range n m = rev [z + 1..n] @ z # rev [m..z - 1]"
  using assms by (simp add: zoom_range_def upto_split3)

lemma zoom_walk_hit:
  assumes "m \<le> z" "z \<le> n" "cf z \<in> fs" "cf z \<notin> act"
    and "\<forall>z'. z < z' \<and> z' \<le> n \<longrightarrow> cf z' \<in> act \<or> cf z' \<notin> fs"
  shows "zoom_walk cf fs act (zoom_range n m) = Some (cf z)"
proof -
  have "\<forall>z'\<in>set (rev [z + 1..n]). cf z' \<in> act \<or> cf z' \<notin> fs"
    using assms(5) by auto
  then have "zoom_walk cf fs act (zoom_range n m) = zoom_walk cf fs act (z # rev [m..z - 1])"
    using zoom_range_split [OF assms(1,2)] zoom_walk_skip by metis
  then show ?thesis using assms(3,4) by simp
qed

lemma zoom_walk_miss:
  assumes "\<forall>z. m \<le> z \<and> z \<le> n \<longrightarrow> cf z \<in> act \<or> cf z \<notin> fs"
  shows "zoom_walk cf fs act (zoom_range n m) = None"
  using assms by (simp add: zoom_walk_none_iff zoom_range_def)

text \<open>
  What \<^verbatim>\<open>get_quick\<close> does on its walk from \<^verbatim>\<open>zoom\<close> down to \<^verbatim>\<open>min_zoom\<close>
  (\<^verbatim>\<open>zoom - 3\<close> when none is given). If some level in that range has an artifact that
  exists and is not active, while every higher level of the range is active or absent,
  \<^verbatim>\<open>get_quick\<close> returns that artifact's path and changes nothing. If every level of the
  range is active or absent and the \<^verbatim>\<open>min_zoom\<close> tile is not active, it calls
  \<^verbatim>\<open>get_quick_tile\<close> once, at \<^verbatim>\<open>min_zoom\<close>, towards the \<^verbatim>\<open>min_zoom\<close> path; when
  \<^verbatim>\<open>min_zoom\<close> is not above \<^verbatim>\<open>zoom\<close>, as with every caller in the source, that file
  does not exist; and when the renderer returns, \<^verbatim>\<open>get_quick\<close> returns the
  \<^verbatim>\<open>min_zoom\<close> path.
\<close>

lemma get_quick_walk:
  "(\<forall>z. resolve_min_zoom zoom min_zoom \<le> z \<and> z \<le> zoom
        \<and> cache_path row col mt z \<in> files s \<and> cache_path row col mt z \<notin> active_tiles s
        \<and> (\<forall>z'. z < z' \<and> z' \<le> zoom \<longrightarrow>
              cache_path row col mt z' \<in> active_tiles s \<or> cache_path row col mt z' \<notin> files s)
      \<longrightarrow> get_quick rend row col mt zoom min_zoom priority s = (Inr (cache_path row col mt z), s))
   \<and> ((\<forall>z. resolve_min_zoom zoom min_zoom \<le> z \<and> z \<le> zoom \<longrightarrow>
              cache_path row col mt z \<in> active_tiles s \<or> cache_path row col mt z \<notin> files s)
        \<and> cache_path row col mt (resolve_min_zoom zoom min_zoom) \<notin> active_tiles s
      \<longrightarrow> calls (snd (get_quick rend row col mt zoom min_zoom priority s))
            = calls s @ [QuickTile col row zoom (resolve_min_zoom zoom min_zoom) mt
                           (cache_path row col mt (resolve_min_zoom zoom min_zoom)) priority]
          \<and> (resolve_min_zoom zoom min_zoom \<le> zoom \<longrightarrow>
                cache_path row col mt (resolve_min_zoom zoom min_zoom) \<notin> files s)
          \<and> (\<forall>t fs act.
                rend (QuickTile col row zoom (resolve_min_zoom zoom min_zoom) mt
                        (cache_path row col mt (resolve_min_zoom zoom min_zoom)) priority)
                     (files s) (active_tiles s) = Returned t fs act
                \<longrightarrow> fst (get_quick rend row col mt zoom min_zoom priority s)
                      = Inr (cache_path row col mt (resolve_min_zoom zoom min_zoom))))"
proof (intro conjI allI impI)
  fix z
  assume h: "resolve_min_zoom zoom min_zoom \<le> z \<and> z \<le> zoom
        \<and> cache_path row col mt z \<in> files s \<and> cache_path row col mt z \<notin> active_tiles s
        \<and> (\<forall>z'. z < z' \<and> z' \<le> zoom \<longrightarrow>
              cache_path row col mt z' \<in> active_tiles s \<or> cache_path row col mt z' \<notin> files s)"
  then have "zoom_walk (cache_path row col mt) (files s) (active_tiles s)
               (zoom_range zoom (resolve_min_zoom zoom min_zoom)) = Some (cache_path row col mt z)"
    by (intro zoom_walk_hit) auto
  then show "get_quick rend row col mt zoom min_zoom priority s = (Inr (cache_path row col mt z), s)"
    by (simp add: get_quick_def)
next
  assume h: "(\<forall>z. resolve_min_zoom zoom min_zoom \<le> z \<and> z \<le> zoom \<longrightarrow>
              cache_path row col mt z \<in> active_tiles s \<or> cache_path row col mt z \<notin> files s)
        \<and> cache_path row col mt (resolve_min_zoom zoom min_zoom) \<notin> active_tiles s"
  then have w: "zoom_walk (cache_path row col mt) (files s) (active_tiles s)
               (zoom_range zoom (resolve_min_zoom zoom min_zoom)) = None"
    by (intro zoom_walk_miss) auto
  show "calls (snd (get_quick rend row col mt zoom min_zoom priority s))
            = calls s @ [QuickTile col row zoom (resolve_min_zoom zoom min_zoom) mt
                           (cache_path row col mt (resolve_min_zoom zoom min_zoom)) priority]"
    using w h by (simp add: get_quick_def Let_def split: rres.split)
  show "cache_path row col mt (resolve_min_zoom zoom min_zoom) \<notin> files s"
    if "resolve_min_zoom zoom min_zoom \<le> zoom"
    using h that by auto
  fix t fs act
  assume "rend (QuickTile col row zoom (resolve_min_zoom zoom min_zoom) mt
                        (cache_path row col mt (resolve_min_zoom zoom min_zoom)) priority)
                     (files s) (active_tiles s) = Returned t fs act"
  then show "fst (get_quick rend row col mt zoom min_zoom priority s)
                      = Inr (cache_path row col mt (resolve_min_zoom zoom min_zoom))"
    using w h by (simp add: get_quick_def Let_def)
qed

text \<open>
  An example of the walk: the level 16 file is absent, the level 15 file exists but is
  being written, the files of levels 14 and 13 exist; the result is the level 14 path.
  On an empty cache with nothing active the fetch goes to level 13.
\<close>

lemma get_quick_walk_example:
  "get_quick slow_renderer 1 2 ''BI'' 16 0 1
       (tc_init {''.cache/1_2_BI_13.dds'', ''.cache/1_2_BI_14.dds'', ''.cache/1_2_BI_15.dds''}
          {''.cache/1_2_BI_15.dds''})
     = (Inr ''.cache/1_2_BI_14.dds'',
        tc_init {''.cache/1_2_BI_13.dds'', ''.cache/1_2_BI_14.dds'', ''.cache/1_2_BI_15.dds''}
          {''.cache/1_2_BI_15.dds''})
   \<and> calls (snd (get_quick slow_renderer 1 2 ''BI'' 16 0 1 (tc_init {} {})))
       = [QuickTile 2 1 16 13 ''BI'' ''.cache/1_2_BI_13.dds'' 1]
   \<and> fst (get_quick slow_renderer 1 2 ''BI'' 16 0 1 (tc_init {} {})) = Inr ''.cache/1_2_BI_13.dds''"
proof -
  let ?s1 = "tc_init {''.cache/1_2_BI_13.dds'', ''.cache/1_2_BI_14.dds'', ''.cache/1_2_BI_15.dds''}
               {''.cache/1_2_BI_15.dds''}"
  let ?s0 = "tc_init {} {}"
  have cp: "cache_path 1 2 ''BI'' 13 = ''.cache/1_2_BI_13.dds''"
    "cache_path 1 2 ''BI'' 14 = ''.cache/1_2_BI_14.dds''"
    "cache_path 1 2 ''BI'' 15 = ''.cache/1_2_BI_15.dds''"
    "cache_path 1 2 ''BI'' 16 = ''.cache/1_2_BI_16.dds''"
    by code_simp+
  have r: "resolve_min_zoom 16 0 = 13" by code_simp
  have rng: "z' = 15 \<or> z' = 16" if "14 < z' \<and> z' \<le> 16" for z' :: int
    using that by arith
  have hit: "resolve_min_zoom 16 0 \<le> 14 \<and> 14 \<le> (16::int)
      \<and> cache_path 1 2 ''BI'' 14 \<in> files ?s1 \<and> cache_path 1 2 ''BI'' 14 \<notin> active_tiles ?s1
      \<and> (\<forall>z'. 14 < z' \<and> z' \<le> 16 \<longrightarrow>
            cache_path 1 2 ''BI'' z' \<in> active_tiles ?s1 \<or> cache_path 1 2 ''BI'' z' \<notin> files ?s1)"
  proof -
    have "cache_path 1 2 ''BI'' z' \<in> active_tiles ?s1 \<or> cache_path 1 2 ''BI'' z' \<notin> files ?s1"
      if "14 < z' \<and> z' \<le> 16" for z'
      using rng [OF that] by (auto simp: cp tc_init_def)
    then show ?thesis by (simp add: r cp tc_init_def)
  qed
  have miss: "(\<forall>z. resolve_min_zoom 16 0 \<le> z \<and> z \<le> 16 \<longrightarrow>
              cache_path 1 2 ''BI'' z \<in> active_tiles ?s0 \<or> cache_path 1 2 ''BI'' z \<notin> files ?s0)
        \<and> cache_path 1 2 ''BI'' (resolve_min_zoom 16 0) \<notin> active_tiles ?s0"
    by (simp add: tc_init_def)
  have ret: "slow_renderer (QuickTile 2 1 16 (resolve_min_zoom 16 0) ''BI''
                (cache_path 1 2 ''BI'' (resolve_min_zoom 16 0)) 1) (files ?s0) (active_tiles ?s0)
             = Returned 11 (insert (cache_path 1 2 ''BI'' (resolve_min_zoom 16 0)) (files ?s0))
                 (active_tiles ?s0)"
    by simp
  note W1 = get_quick_walk [where zoom = 16 and min_zoom = 0 and row = 1 and col = 2
        and mt = "''BI''" and s = ?s1 and rend = slow_renderer and priority = 1]
  note W0 = get_quick_walk [where zoom = 16 and min_zoom = 0 and row = 1 and col = 2
        and mt = "''BI''" and s = ?s0 and rend = slow_renderer and priority = 1]
  have A: "get_quick slow_renderer 1 2 ''BI'' 16 0 1 ?s1 = (Inr (cache_path 1 2 ''BI'' 14), ?s1)"
    by (rule W1 [THEN conjunct1, THEN spec, THEN mp, OF hit])
  note M = W0 [THEN conjunct2, THEN mp, OF miss]
  have B1: "calls (snd (get_quick slow_renderer 1 2 ''BI'' 16 0 1 ?s0))
            = calls ?s0 @ [QuickTile 2 1 16 (resolve_min_zoom 16 0) ''BI''
                             (cache_path 1 2 ''BI'' (resolve_min_zoom 16 0)) 1]"
    by (rule M [THEN conjunct1])
  have B2: "fst (get_quick slow_renderer 1 2 ''BI'' 16 0 1 ?s0)
            = Inr (cache_path 1 2 ''BI'' (resolve_min_zoom 16 0))"
    by (rule M [THEN conjunct2, THEN conjunct2, THEN spec, THEN spec, THEN spec, THEN mp, OF ret])
  have C1: "get_quick slow_renderer 1 2 ''BI'' 16 0 1 ?s1 = (Inr ''.cache/1_2_BI_14.dds'', ?s1)"
    using A by (simp only: cp)
  have C2: "calls (snd (get_quick slow_renderer 1 2 ''BI'' 16 0 1 ?s0))
       = [QuickTile 2 1 16 13 ''BI'' ''.cache/1_2_BI_13.dds'' 1]"
    using B1 by (simp add: r cp tc_init_def)
  have C3: "fst (get_quick slow_renderer 1 2 ''BI'' 16 0 1 ?s0) = Inr ''.cache/1_2_BI_13.dds''"
    using B2 by (simp add: r cp)
  show ?thesis using C1 C2 C3 by (intro conjI)
qed

text \<open>
  Claim C6 says that \<^verbatim>\<open>get_quick\<close> walks the levels from \<^verbatim>\<open>zoom\<close> down to
  \<^verbatim>\<open>min_zoom\<close>, skips the active ones, returns the first existing artifact, and, if no
  level hits, emits a fetch at \<^verbatim>\<open>min_zoom\<close> and returns the \<^verbatim>\<open>min_zoom\<close> path, never
  overwriting an existing artifact. The walk, the first hit and the fetch towards a file
  that does not exist are as the claim says (lemma \<^verbatim>\<open>get_quick_walk\<close>). The miss is not:
  when no level hits while the \<^verbatim>\<open>min_zoom\<close> tile is being written, the code takes its
  waiting branch, whose \<^verbatim>\<open>tile_condition.wait()\<close> stands after the \<^verbatim>\<open>with\<close> block that
  held the condition, so the wait raises \<^verbatim>\<open>RuntimeError\<close>. The theorem runs
  \<^verbatim>\<open>get_quick(1, 2, 'BI', 16)\<close> on an empty cache while \<^verbatim>\<open>.cache/1_2_BI_13.dds\<close> is active:
  no level hits, no fetch is emitted, no path is returned.
\<close>

theorem get_quick_miss_while_active:
  "zoom_walk (cache_path 1 2 ''BI'') (files (tc_init {} {''.cache/1_2_BI_13.dds''}))
       (active_tiles (tc_init {} {''.cache/1_2_BI_13.dds''}))
       (zoom_range 16 (resolve_min_zoom 16 0)) = None
   \<and> fst (get_quick slow_renderer 1 2 ''BI'' 16 0 1 (tc_init {} {''.cache/1_2_BI_13.dds''}))
       = Inl RuntimeError
   \<and> calls (snd (get_quick slow_renderer 1 2 ''BI'' 16 0 1 (tc_init {} {''.cache/1_2_BI_13.dds''})))
       = []"
  by code_simp

section \<open>Background requests\<close>

lemma get_background_present:
  assumes "cache_path row col mt zoom \<in> files s"
  shows "get_background rend row col mt zoom s = (Inr (), s)"
  using assms by (simp add: get_background_def)

lemma repeat_background_present:
  assumes "cache_path row col mt zoom \<in> files s"
  shows "repeat_background rend n row col mt zoom s = s"
  using assms by (induction n) (simp_all add: get_background_present)

lemma get_background_absent_calls:
  assumes "cache_path row col mt zoom \<notin> files s"
  shows "calls (snd (get_background rend row col mt zoom s))
           = calls s @ [BackgroundTile col row zoom None mt (cache_path row col mt zoom) None]"
  using assms by (simp add: get_background_def Let_def split: rres.split)

lemma get_background_absent_files:
  assumes "cache_path row col mt zoom \<notin> files s"
  shows "files (snd (get_background rend row col mt zoom s))
           = rres_files (rend (BackgroundTile col row zoom None mt (cache_path row col mt zoom) None)
                           (files s) (active_tiles s))"
  using assms by (simp add: get_background_def Let_def split: rres.split)

text \<open>
  As long as the file has not appeared, every call of \<^verbatim>\<open>get_background\<close> hands one more
  request to the renderer, whatever the active set holds.
\<close>

lemma repeat_background_absent:
  assumes "\<forall>c fs act. cache_path row col mt zoom \<notin> fs
             \<longrightarrow> cache_path row col mt zoom \<notin> rres_files (rend c fs act)"
    and "cache_path row col mt zoom \<notin> files s"
  shows "background_requests (cache_path row col mt zoom) (repeat_background rend n row col mt zoom s)
           = background_requests (cache_path row col mt zoom) s + n"
  using assms(2)
proof (induction n arbitrary: s)
  case 0
  then show ?case by simp
next
  case (Suc n)
  let ?s' = "snd (get_background rend row col mt zoom s)"
  have "cache_path row col mt zoom \<notin> files ?s'"
    using Suc.prems assms(1) by (simp add: get_background_absent_files)
  then have "background_requests (cache_path row col mt zoom)
               (repeat_background rend n row col mt zoom ?s')
             = background_requests (cache_path row col mt zoom) ?s' + n"
    by (rule Suc.IH)
  moreover have "background_requests (cache_path row col mt zoom) ?s'
                 = Suc (background_requests (cache_path row col mt zoom) s)"
    using Suc.prems by (simp add: background_requests_def get_background_absent_calls)
  ultimately show ?case by simp
qed

text \<open>
  Claim C7 says that \<^verbatim>\<open>get_background\<close> returns without scheduling anything when the
  artifact exists, and that repeated calls for a key made while the key is active or
  present enqueue background work for it at most once. The first half holds (lemmas
  \<^verbatim>\<open>get_background_present\<close> and \<^verbatim>\<open>repeat_background_present\<close>). The second does not:
  \<^verbatim>\<open>get_background\<close> tests only whether the file exists, where \<^verbatim>\<open>get_best\<close> also tests
  whether the key is in \<^verbatim>\<open>active_tiles\<close>. The theorem calls
  \<^verbatim>\<open>get_background(1, 2, 'BI', 16)\<close> twice on an empty cache, with a renderer that on a
  background request marks the tile active and returns: after the first call the key is
  active and the file is not there, and the second call hands the renderer a second
  request for the same file.
\<close>

theorem get_background_enqueues_again:
  "''.cache/1_2_BI_16.dds''
     \<in> active_tiles (snd (get_background slow_renderer 1 2 ''BI'' 16 (tc_init {} {})))
   \<and> ''.cache/1_2_BI_16.dds''
     \<notin> files (snd (get_background slow_renderer 1 2 ''BI'' 16 (tc_init {} {})))
   \<and> calls (snd (get_background slow_renderer 1 2 ''BI'' 16 (tc_init {} {})))
       = [BackgroundTile 2 1 16 None ''BI'' ''.cache/1_2_BI_16.dds'' None]
   \<and> calls (repeat_background slow_renderer 2 1 2 ''BI'' 16 (tc_init {} {}))
       = [BackgroundTile 2 1 16 None ''BI'' ''.cache/1_2_BI_16.dds'' None,
          BackgroundTile 2 1 16 None ''BI'' ''.cache/1_2_BI_16.dds'' None]
   \<and> background_requests ''.cache/1_2_BI_16.dds''
        (repeat_background slow_renderer 2 1 2 ''BI'' 16 (tc_init {} {})) = 2"
  by code_simp

section \<open>The deadline wait\<close>

lemma deadline_loop_returns:
  assumes "ws \<noteq> []" and "deadline < elapsed + sum_list (map w_dt ws)"
  shows "deadline_loop cf deadline ws elapsed s \<noteq> None"
  using assms
proof (induction ws arbitrary: elapsed s)
  case Nil
  then show ?case by simp
next
  case (Cons w ws)
  show ?case
  proof (cases "cf \<in> active_tiles s \<or> cf \<notin> files s")
    case False
    then show ?thesis by simp
  next
    case need: True
    show ?thesis
    proof (cases "deadline < elapsed + w_dt w")
      case True
      then show ?thesis using need by (simp add: Let_def)
    next
      case False
      then have "ws \<noteq> []" using Cons.prems(2) by auto
      moreover have "deadline < (elapsed + w_dt w) + sum_list (map w_dt ws)"
        using Cons.prems(2) by simp
      ultimately have "deadline_loop cf deadline ws (elapsed + w_dt w)
          (s\<lparr>files := w_files w, active_tiles := w_active w,
              waits := waits s @ [(elapsed, deadline)]\<rparr>) \<noteq> None"
        by (rule Cons.IH)
      then show ?thesis using need False by (simp add: Let_def)
    qed
  qed
qed

lemma deadline_loop_frame:
  assumes "deadline_loop cf deadline ws elapsed s = Some (b, el, s')"
  shows "calls s' = calls s \<and> tile_times s' = tile_times s \<and> target_zoom s' = target_zoom s"
  using assms
proof (induction ws arbitrary: elapsed s)
  case Nil
  then show ?case by (simp split: if_splits)
next
  case (Cons w ws)
  show ?case
  proof (cases "cf \<in> active_tiles s \<or> cf \<notin> files s")
    case False
    then show ?thesis using Cons.prems by simp
  next
    case need: True
    show ?thesis
    proof (cases "deadline < elapsed + w_dt w")
      case True
      then show ?thesis using need Cons.prems by (auto simp: Let_def)
    next
      case False
      then have "deadline_loop cf deadline ws (elapsed + w_dt w)
          (s\<lparr>files := w_files w, active_tiles := w_active w,
              waits := waits s @ [(elapsed, deadline)]\<rparr>) = Some (b, el, s')"
        using need Cons.prems by (simp add: Let_def)
      from Cons.IH [OF this] show ?thesis by simp
    qed
  qed
qed

lemma deadline_loop_exit:
  assumes "deadline_loop cf deadline ws elapsed s = Some (b, el, s')"
  shows "(b \<longrightarrow> deadline < el) \<and> (\<not> b \<longrightarrow> cf \<in> files s' \<and> cf \<notin> active_tiles s')"
  using assms
proof (induction ws arbitrary: elapsed s)
  case Nil
  then show ?case by (auto split: if_splits)
next
  case (Cons w ws)
  show ?case
  proof (cases "cf \<in> active_tiles s \<or> cf \<notin> files s")
    case False
    then show ?thesis using Cons.prems by auto
  next
    case need: True
    show ?thesis
    proof (cases "deadline < elapsed + w_dt w")
      case True
      then show ?thesis using need Cons.prems by (auto simp: Let_def)
    next
      case False
      then have "deadline_loop cf deadline ws (elapsed + w_dt w)
          (s\<lparr>files := w_files w, active_tiles := w_active w,
              waits := waits s @ [(elapsed, deadline)]\<rparr>) = Some (b, el, s')"
        using need Cons.prems by (simp add: Let_def)
      from Cons.IH [OF this] show ?thesis .
    qed
  qed
qed




text \<open>
  Claim C4, as amended. \<^verbatim>\<open>get_deadline\<close> targets the artifact at \<^verbatim>\<open>quick_zoom\<close> if that
  is nonzero, else at \<^verbatim>\<open>zoom\<close>. If the artifact exists it returns its path at once and
  the state, renderer calls included, is untouched. Otherwise, once
  \<^verbatim>\<open>get_background_tile\<close> has returned and the wait has ended, it returns the target path
  if the artifact exists and the deadline was not breached, and in every other case the
  result of \<^verbatim>\<open>get_quick(row, col, maptype, zoom, min_zoom)\<close> with the given \<^verbatim>\<open>min_zoom\<close>
  if nonzero, else \<^verbatim>\<open>zoom - 3\<close>. The wait ends with the deadline breached, or with the
  artifact there and not active; exactly one renderer request was made before it; and it
  does end as soon as the wake-ups together take longer than the deadline.
\<close>

theorem get_deadline_result:
  "deadline_target row col mt zoom qz = cache_path row col mt (if qz \<noteq> 0 then qz else zoom)
   \<and> (deadline_target row col mt zoom qz \<in> files s \<longrightarrow>
        get_deadline rend ws row col mt zoom qz mz d pr s
          = Some (Inr (deadline_target row col mt zoom qz), s))
   \<and> (deadline_target row col mt zoom qz \<notin> files s
        \<and> rend (BackgroundTile col row zoom (Some qz) mt (deadline_target row col mt zoom qz) (Some pr))
             (files s) (active_tiles s) = Returned t fs act
        \<and> deadline_loop (deadline_target row col mt zoom qz) d ws 0
             (s\<lparr>files := fs, active_tiles := act,
                 calls := calls s @ [BackgroundTile col row zoom (Some qz) mt
                                       (deadline_target row col mt zoom qz) (Some pr)]\<rparr>)
            = Some (reached, el, s2)
      \<longrightarrow> get_deadline rend ws row col mt zoom qz mz d pr s
            = Some (if deadline_target row col mt zoom qz \<in> files s2 \<and> \<not> reached
                    then (Inr (deadline_target row col mt zoom qz), s2)
                    else get_quick rend row col mt zoom (if mz = 0 then zoom - 3 else mz) 1 s2)
          \<and> (reached \<longrightarrow> d < el)
          \<and> (\<not> reached \<longrightarrow> deadline_target row col mt zoom qz \<in> files s2
                             \<and> deadline_target row col mt zoom qz \<notin> active_tiles s2)
          \<and> calls s2 = calls s @ [BackgroundTile col row zoom (Some qz) mt
                                    (deadline_target row col mt zoom qz) (Some pr)])
   \<and> (deadline_target row col mt zoom qz \<notin> files s
        \<and> rend (BackgroundTile col row zoom (Some qz) mt (deadline_target row col mt zoom qz) (Some pr))
             (files s) (active_tiles s) = Returned t fs act
        \<and> ws \<noteq> [] \<and> d < sum_list (map w_dt ws)
      \<longrightarrow> get_deadline rend ws row col mt zoom qz mz d pr s \<noteq> None)"
proof (intro conjI impI)
  show "deadline_target row col mt zoom qz = cache_path row col mt (if qz \<noteq> 0 then qz else zoom)"
    by (simp add: deadline_target_def)
next
  assume "deadline_target row col mt zoom qz \<in> files s"
  then show "get_deadline rend ws row col mt zoom qz mz d pr s
          = Some (Inr (deadline_target row col mt zoom qz), s)"
    by (simp add: get_deadline_def)
next
  let ?cf = "deadline_target row col mt zoom qz"
  let ?c = "BackgroundTile col row zoom (Some qz) mt ?cf (Some pr)"
  let ?s1 = "s\<lparr>files := fs, active_tiles := act, calls := calls s @ [?c]\<rparr>"
  assume h: "?cf \<notin> files s \<and> rend ?c (files s) (active_tiles s) = Returned t fs act
        \<and> deadline_loop ?cf d ws 0 ?s1 = Some (reached, el, s2)"
  then have absent: "?cf \<notin> files s"
    and ret: "rend ?c (files s) (active_tiles s) = Returned t fs act"
    and run: "deadline_loop ?cf d ws 0 ?s1 = Some (reached, el, s2)"
    by simp_all
  show "get_deadline rend ws row col mt zoom qz mz d pr s
            = Some (if ?cf \<in> files s2 \<and> \<not> reached then (Inr ?cf, s2)
                    else get_quick rend row col mt zoom (if mz = 0 then zoom - 3 else mz) 1 s2)"
    using absent ret run by (simp add: get_deadline_def Let_def)
  show "d < el" if reached
    using deadline_loop_exit [OF run] that by simp
  show "?cf \<in> files s2" if "\<not> reached"
    using deadline_loop_exit [OF run] that by simp
  show "?cf \<notin> active_tiles s2" if "\<not> reached"
    using deadline_loop_exit [OF run] that by simp
  show "calls s2 = calls s @ [?c]"
    using deadline_loop_frame [OF run] by simp
next
  let ?cf = "deadline_target row col mt zoom qz"
  let ?c = "BackgroundTile col row zoom (Some qz) mt ?cf (Some pr)"
  let ?s1 = "s\<lparr>files := fs, active_tiles := act, calls := calls s @ [?c]\<rparr>"
  assume h: "?cf \<notin> files s \<and> rend ?c (files s) (active_tiles s) = Returned t fs act
        \<and> ws \<noteq> [] \<and> d < sum_list (map w_dt ws)"
  then have "deadline_loop ?cf d ws 0 ?s1 \<noteq> None"
    by (intro deadline_loop_returns) simp_all
  then obtain r where r: "deadline_loop ?cf d ws 0 ?s1 = Some r" by auto
  obtain b el' s' where "r = (b, el', s')" by (cases r) auto
  then show "get_deadline rend ws row col mt zoom qz mz d pr s \<noteq> None"
    using h r by (simp add: get_deadline_def Let_def)
qed

theorem get_deadline_result_witness:
  "get_deadline slow_renderer [] 1 2 ''BI'' 16 0 0 1 5 (tc_init {''.cache/1_2_BI_16.dds''} {})
     = Some (Inr ''.cache/1_2_BI_16.dds'', tc_init {''.cache/1_2_BI_16.dds''} {})
   \<and> map_option fst (get_deadline slow_renderer
         [\<lparr>w_dt = 1 / 2, w_files = {''.cache/1_2_BI_16.dds''}, w_active = {}\<rparr>]
         1 2 ''BI'' 16 0 0 1 5 (tc_init {} {})) = Some (Inr ''.cache/1_2_BI_16.dds'')
   \<and> map_option fst (get_deadline slow_renderer
         [\<lparr>w_dt = 11 / 10, w_files = {}, w_active = {''.cache/1_2_BI_16.dds''}\<rparr>]
         1 2 ''BI'' 16 0 0 1 5 (tc_init {} {})) = Some (Inr ''.cache/1_2_BI_13.dds'')
   \<and> get_deadline slow_renderer
         [\<lparr>w_dt = 11 / 10, w_files = {}, w_active = {''.cache/1_2_BI_16.dds''}\<rparr>]
         1 2 ''BI'' 16 0 0 1 5 (tc_init {} {}) \<noteq> None"
proof -
  let ?p = "''.cache/1_2_BI_16.dds''"
  let ?c = "BackgroundTile 2 1 16 (Some 0) ''BI'' (deadline_target 1 2 ''BI'' 16 0) (Some 5)"
  let ?s0 = "tc_init {} {}"
  let ?sp = "tc_init {?p} {}"
  let ?w1 = "[\<lparr>w_dt = 1 / 2, w_files = {?p}, w_active = {}\<rparr>]"
  let ?w2 = "[\<lparr>w_dt = 11 / 10, w_files = {}, w_active = {?p}\<rparr>]"
  let ?a1 = "\<lparr>files = {?p}, active_tiles = {}, tile_times = [], target_zoom = 16,
              calls = [?c], waits = [(0, 1)]\<rparr>"
  let ?a2 = "\<lparr>files = {}, active_tiles = {?p}, tile_times = [], target_zoom = 16,
              calls = [?c], waits = [(0, 1)]\<rparr>"
  have dt: "deadline_target 1 2 ''BI'' 16 0 = ?p" by code_simp
  have present: "deadline_target 1 2 ''BI'' 16 0 \<in> files ?sp" by (simp add: dt tc_init_def)
  have absent: "deadline_target 1 2 ''BI'' 16 0 \<notin> files ?s0" by (simp add: tc_init_def)
  have ret: "slow_renderer ?c (files ?s0) (active_tiles ?s0)
               = Returned 0 (files ?s0) (insert (deadline_target 1 2 ''BI'' 16 0) (active_tiles ?s0))"
    by simp
  have run1: "deadline_loop (deadline_target 1 2 ''BI'' 16 0) 1 ?w1 0
                (?s0\<lparr>files := files ?s0,
                      active_tiles := insert (deadline_target 1 2 ''BI'' 16 0) (active_tiles ?s0),
                      calls := calls ?s0 @ [?c]\<rparr>)
              = Some (False, 1 / 2, ?a1)"
    by (simp add: dt tc_init_def)
  have run2: "deadline_loop (deadline_target 1 2 ''BI'' 16 0) 1 ?w2 0
                (?s0\<lparr>files := files ?s0,
                      active_tiles := insert (deadline_target 1 2 ''BI'' 16 0) (active_tiles ?s0),
                      calls := calls ?s0 @ [?c]\<rparr>)
              = Some (True, 11 / 10, ?a2)"
    by (simp add: dt tc_init_def)
  have late: "?w2 \<noteq> [] \<and> 1 < sum_list (map w_dt ?w2)" by simp
  have gq: "fst (get_quick slow_renderer 1 2 ''BI'' 16 13 1 ?a2) = Inr ''.cache/1_2_BI_13.dds''"
    by code_simp
  note T0 = get_deadline_result [where row = 1 and col = 2 and mt = "''BI''" and zoom = 16
      and qz = 0 and mz = 0 and d = 1 and pr = 5 and rend = slow_renderer]
  have A: "get_deadline slow_renderer [] 1 2 ''BI'' 16 0 0 1 5 ?sp
             = Some (Inr (deadline_target 1 2 ''BI'' 16 0), ?sp)"
    by (rule T0 [where s = ?sp and ws = "[]", THEN conjunct2, THEN conjunct1, THEN mp, OF present])
  note B0 = T0 [where s = ?s0 and ws = ?w1, THEN conjunct2, THEN conjunct2, THEN conjunct1,
      THEN mp, OF conjI [OF absent conjI [OF ret run1]]]
  note C0 = T0 [where s = ?s0 and ws = ?w2, THEN conjunct2, THEN conjunct2, THEN conjunct1,
      THEN mp, OF conjI [OF absent conjI [OF ret run2]]]
  have D: "get_deadline slow_renderer ?w2 1 2 ''BI'' 16 0 0 1 5 ?s0 \<noteq> None"
    by (rule T0 [where s = ?s0 and ws = ?w2, THEN conjunct2, THEN conjunct2, THEN conjunct2,
      THEN mp, OF conjI [OF absent conjI [OF ret late]]])
  have A': "get_deadline slow_renderer [] 1 2 ''BI'' 16 0 0 1 5 ?sp = Some (Inr ?p, ?sp)"
    using A by (simp only: dt)
  have B: "map_option fst (get_deadline slow_renderer ?w1 1 2 ''BI'' 16 0 0 1 5 ?s0)
             = Some (Inr ?p)"
    using B0 [THEN conjunct1] by (simp add: dt)
  have C: "map_option fst (get_deadline slow_renderer ?w2 1 2 ''BI'' 16 0 0 1 5 ?s0)
             = Some (Inr ''.cache/1_2_BI_13.dds'')"
    using C0 [THEN conjunct1] gq by (simp add: dt)
  show ?thesis using A' B C D by (intro conjI)
qed

text \<open>
  The claim as given says that the target path is returned if and only if the artifact
  exists and the deadline was not breached. The other direction fails:
  \<^verbatim>\<open>get_deadline(1, 2, 'BI', 16, deadline=1)\<close> on an empty cache, the wait ending after
  1.1 seconds with the tile written in the meantime. The deadline is breached, the code
  falls through to \<^verbatim>\<open>get_quick\<close>, whose walk starts at level 16 and finds the file: the
  target path is returned all the same.
\<close>

theorem get_deadline_late_counterexample:
  "deadline_target 1 2 ''BI'' 16 0 = ''.cache/1_2_BI_16.dds''
   \<and> map_option fst (deadline_loop ''.cache/1_2_BI_16.dds'' 1
        [\<lparr>w_dt = 11 / 10, w_files = {''.cache/1_2_BI_16.dds''}, w_active = {}\<rparr>] 0
        ((tc_init {} {''.cache/1_2_BI_16.dds''})
           \<lparr>calls := [BackgroundTile 2 1 16 (Some 0) ''BI'' ''.cache/1_2_BI_16.dds'' (Some 5)]\<rparr>))
       = Some True
   \<and> map_option fst (get_deadline slow_renderer
        [\<lparr>w_dt = 11 / 10, w_files = {''.cache/1_2_BI_16.dds''}, w_active = {}\<rparr>]
        1 2 ''BI'' 16 0 0 1 5 (tc_init {} {})) = Some (Inr ''.cache/1_2_BI_16.dds'')
   \<and> map_option (calls \<circ> snd) (get_deadline slow_renderer
        [\<lparr>w_dt = 11 / 10, w_files = {''.cache/1_2_BI_16.dds''}, w_active = {}\<rparr>]
        1 2 ''BI'' 16 0 0 1 5 (tc_init {} {}))
       = Some [BackgroundTile 2 1 16 (Some 0) ''BI'' ''.cache/1_2_BI_16.dds'' (Some 5)]"
  by code_simp




section \<open>The DSF prefetch: chunks and workers\<close>

lemma chunked_list_small:
  assumes "length xs < 8"
  shows "chunked_list xs = Inl ValueError"
  using assms by (simp add: chunked_list_def num_chunks_def range_step_def)








text \<open>
  What the cut does when the number of paths is not a positive multiple of 8 is outside
  the theorem below. Two facts about it: fewer than 8 paths (none included) end
  \<^verbatim>\<open>DSF.open\<close> with \<^verbatim>\<open>ValueError\<close>, the chunk size being 0; and 9 paths give 9 chunks.
\<close>

lemma chunked_list_nine:
  "map_sum id length (chunked_list (map numbered_dds [0..<9])) = Inr 9"
  by code_simp




end
